theory Spec2Isabelle
  imports Main "HOL-Library.Char_ord" "HOL-Library.AList"
begin

section \<open>The fragment of Go's \<open>strings\<close> package that the logger calls\<close>

text \<open>
  A Go string is a sequence of bytes, here a \<open>string\<close> (a list of 8-bit characters).

  \<open>strings.ToLower\<close> and \<open>strings.ToUpper\<close> first scan the string for a byte at or
  above \<open>utf8.RuneSelf = 0x80\<close>. When there is none they map the letters
  \<open>A\<close>..\<open>Z\<close> and \<open>a\<close>..\<open>z\<close> onto each other byte by byte; otherwise they return
  \<open>Map(unicode.ToLower, s)\<close> and \<open>Map(unicode.ToUpper, s)\<close>, which decode the runes and
  consult the Unicode tables of the library. The two table-driven functions are not part of
  the program; they are the fields of a record that every function calling \<open>ToLower\<close> or
  \<open>ToUpper\<close> receives.
\<close>

record casing =
  unicodeToLower :: "string \<Rightarrow> string"
  unicodeToUpper :: "string \<Rightarrow> string"

definition toLowerByte :: "char \<Rightarrow> char" where
  "toLowerByte c =
     (if CHR ''A'' \<le> c \<and> c \<le> CHR ''Z'' then char_of (of_char c + (32::nat)) else c)"

definition toUpperByte :: "char \<Rightarrow> char" where
  "toUpperByte c =
     (if CHR ''a'' \<le> c \<and> c \<le> CHR ''z'' then char_of (of_char c - (32::nat)) else c)"

text \<open>The scan for a byte that is not ASCII.\<close>

fun isASCII :: "string \<Rightarrow> bool" where
  "isASCII [] = True"
| "isASCII (c # s) = (if CHR 0x80 \<le> c then False else isASCII s)"

definition ToLower :: "casing \<Rightarrow> string \<Rightarrow> string" where
  "ToLower U s = (if isASCII s then map toLowerByte s else unicodeToLower U s)"

definition ToUpper :: "casing \<Rightarrow> string \<Rightarrow> string" where
  "ToUpper U s = (if isASCII s then map toUpperByte s else unicodeToUpper U s)"

text \<open>
  \<open>strings.EqualFold(s, t)\<close>: the loop walks both strings together; two bytes agree when
  they are equal or when the smaller one is an upper-case letter and the larger one is that
  letter plus \<open>'a' - 'A'\<close>. After the loop the lengths must agree. The library leaves
  this loop for a comparison of runes when it meets a byte at or above \<open>0x80\<close>. The
  program calls \<open>EqualFold\<close> only with one of five ASCII words as second argument, none
  of which has a letter (\<open>k\<close> or \<open>s\<close>) that folds to a rune outside ASCII, so that
  against them the comparison of runes fails just as the comparison of bytes does here.
\<close>

fun EqualFold :: "string \<Rightarrow> string \<Rightarrow> bool" where
  "EqualFold [] [] = True"
| "EqualFold (sr # s) (tr # t) =
     (if tr = sr then EqualFold s t
      else let lo = (if tr < sr then tr else sr);
               hi = (if tr < sr then sr else tr)
           in if CHR ''A'' \<le> lo \<and> lo \<le> CHR ''Z'' \<and> hi = char_of (of_char lo + (32::nat))
              then EqualFold s t
              else False)"
| "EqualFold _ _ = False"

text \<open>
  \<open>strings.Replace(s, old, new, -1)\<close>: every non-overlapping occurrence of \<open>old\<close>,
  found from left to right, is replaced by \<open>new\<close>. With an empty \<open>old\<close> the library
  inserts \<open>new\<close> in front of the string and after every character.
\<close>

function replaceFrom :: "string \<Rightarrow> string \<Rightarrow> string \<Rightarrow> string" where
  "replaceFrom [] old new = []"
| "replaceFrom (c # s) old new =
     (if old \<noteq> [] \<and> take (length old) (c # s) = old
      then new @ replaceFrom (drop (length old) (c # s)) old new
      else c # replaceFrom s old new)"
  by pat_completeness auto
termination
  by (relation "measure (\<lambda>(s, old, new). length s)") auto

definition Replace :: "string \<Rightarrow> string \<Rightarrow> string \<Rightarrow> string" where
  "Replace s old new =
     (if old = [] then new @ concat (map (\<lambda>c. c # new) s) else replaceFrom s old new)"

text \<open>
  \<open>strings.TrimRight(s, cutset)\<close>: the longest suffix made of bytes of \<open>cutset\<close> is
  cut off.
\<close>

definition TrimRight :: "string \<Rightarrow> string \<Rightarrow> string" where
  "TrimRight s cutset = rev (dropWhile (\<lambda>c. c \<in> set cutset) (rev s))"

section \<open>Levels\<close>

text \<open>
  \<open>type Level uint\<close> with the constants \<open>LevelNone\<close> .. \<open>LevelDebug\<close> numbered by
  \<open>iota\<close>. The program only compares levels, so the unsigned integer is a natural number.
\<close>

type_synonym Level = nat

definition LevelNone :: Level where "LevelNone = 0"
definition LevelError :: Level where "LevelError = 1"
definition LevelWarn :: Level where "LevelWarn = 2"
definition LevelInfo :: Level where "LevelInfo = 3"
definition LevelDebug :: Level where "LevelDebug = 4"

definition GetLevelByString :: "string \<Rightarrow> Level" where
  "GetLevelByString level =
     (if EqualFold level ''debug'' then LevelDebug
      else if EqualFold level ''info'' then LevelInfo
      else if EqualFold level ''warn'' then LevelWarn
      else if EqualFold level ''error'' then LevelError
      else if EqualFold level ''none'' then LevelNone
      else LevelInfo)"

text \<open>
  \<open>getEnvVarLevel\<close> reads the process environment through \<open>os.Getenv\<close>, which gives the
  empty string for a variable that is not set, and the package variable
  \<open>defaultEnvironmentVariablePrefix\<close>; both are arguments here.
\<close>

definition getEnvVarLevel ::
  "casing \<Rightarrow> (string \<Rightarrow> string) \<Rightarrow> string \<Rightarrow> string \<Rightarrow> string" where
  "getEnvVarLevel U Getenv defaultPrefix namespace =
     (let prefix = (if namespace \<noteq> [] then defaultPrefix @ ''_'' else defaultPrefix);
          namespace' = (if namespace \<noteq> []
                        then Replace (Replace (ToUpper U namespace) ''-'' ''_'') ''.'' ''_''
                        else namespace);
          level = Getenv (prefix @ namespace');
          level' = (if level = [] then Getenv defaultPrefix else level)
      in ToLower U level')"

section \<open>Handlers, loggers and the effects of a call\<close>

text \<open>
  A handler is a value of the empty interface type \<open>Interface\<close>. The logger never looks
  inside it: it only asks, by a type assertion, whether the handler's dynamic type has the
  method of one of the six interfaces, and calls that method. A handler is therefore
  modelled by an identity and the set of interfaces it satisfies (the \<open>nil\<close> handler
  satisfies none), and a call of one of its methods by an event that records the handler and
  the arguments.
\<close>

datatype capability =
  InitInterface | DebugInterface | InfoInterface | WarnInterface | ErrorInterface | FatalInterface

record handler =
  hid :: nat
  implements :: "capability set"

text \<open>The operands \<open>v ...interface{}\<close> of a logging call.\<close>

datatype arg = ArgString string | ArgInt int

datatype event =
    CallInit nat string Level
  | CallDebug nat string
  | CallInfo nat string
  | CallWarn nat string
  | CallError nat string
  | CallFatal nat string
  | CallSprintf string "arg list"

text \<open>How a call of \<open>Fatal\<close> ends: it returns to its caller, or \<open>os.Exit\<close> ends the
  process with the given status.\<close>

datatype outcome = Returns | Exits int

type_synonym error = string

record Logger =
  Logger_Namespace :: string
  Logger_Level :: Level
  Logger_Handlers :: "handler list"

text \<open>
  The methods of \<open>*Logger\<close> take the logger and give the events they cause, in the order
  in which they happen, together with the updated logger where they assign to it.
  \<open>fmt.Sprintf\<close> belongs to the standard library and is an argument of the methods that
  call it; each call of it is an event too.
\<close>

definition Logger_AddHandler :: "handler \<Rightarrow> Logger \<Rightarrow> Logger \<times> event list" where
  "Logger_AddHandler h logger =
     (let logger' = logger\<lparr>Logger_Handlers := Logger_Handlers logger @ [h]\<rparr>
      in (logger',
          if InitInterface \<in> implements h
          then [CallInit (hid h) (Logger_Namespace logger') (Logger_Level logger')]
          else []))"

text \<open>The loop of \<open>SetLevel\<close> over \<open>logger.Handlers\<close>.\<close>

fun initHandlers :: "string \<Rightarrow> Level \<Rightarrow> handler list \<Rightarrow> event list" where
  "initHandlers namespace level [] = []"
| "initHandlers namespace level (h # hs) =
     (if InitInterface \<in> implements h
      then CallInit (hid h) namespace level # initHandlers namespace level hs
      else initHandlers namespace level hs)"

definition Logger_SetLevel :: "Level \<Rightarrow> Logger \<Rightarrow> Logger \<times> event list" where
  "Logger_SetLevel level logger =
     (let logger' = logger\<lparr>Logger_Level := level\<rparr>
      in (logger',
          initHandlers (Logger_Namespace logger') (Logger_Level logger') (Logger_Handlers logger')))"

text \<open>
  The loop shared by \<open>Debug\<close>, \<open>Info\<close>, \<open>Warn\<close>, \<open>Error\<close> and \<open>Fatal\<close>: it walks
  \<open>logger.Handlers\<close> from the front and calls the method on each handler on which the type
  assertion for the interface succeeds.
\<close>

fun fanout :: "capability \<Rightarrow> (nat \<Rightarrow> string \<Rightarrow> event) \<Rightarrow> string \<Rightarrow> handler list \<Rightarrow> event list" where
  "fanout cap call msg [] = []"
| "fanout cap call msg (h # hs) =
     (if cap \<in> implements h
      then call (hid h) msg # fanout cap call msg hs
      else fanout cap call msg hs)"

definition Logger_Debug ::
  "(string \<Rightarrow> arg list \<Rightarrow> string) \<Rightarrow> string \<Rightarrow> arg list \<Rightarrow> Logger \<Rightarrow> event list" where
  "Logger_Debug Sprintf format v logger =
     (if Logger_Level logger < LevelDebug then []
      else let msg = Sprintf format v
           in CallSprintf format v # fanout DebugInterface CallDebug msg (Logger_Handlers logger))"

definition Logger_Info ::
  "(string \<Rightarrow> arg list \<Rightarrow> string) \<Rightarrow> string \<Rightarrow> arg list \<Rightarrow> Logger \<Rightarrow> event list" where
  "Logger_Info Sprintf format v logger =
     (if Logger_Level logger < LevelInfo then []
      else let msg = Sprintf format v
           in CallSprintf format v # fanout InfoInterface CallInfo msg (Logger_Handlers logger))"

definition Logger_Warn ::
  "(string \<Rightarrow> arg list \<Rightarrow> string) \<Rightarrow> string \<Rightarrow> arg list \<Rightarrow> Logger \<Rightarrow> event list" where
  "Logger_Warn Sprintf format v logger =
     (if Logger_Level logger < LevelWarn then []
      else let msg = Sprintf format v
           in CallSprintf format v # fanout WarnInterface CallWarn msg (Logger_Handlers logger))"

definition Logger_Error ::
  "(string \<Rightarrow> arg list \<Rightarrow> string) \<Rightarrow> string \<Rightarrow> arg list \<Rightarrow> Logger \<Rightarrow> event list" where
  "Logger_Error Sprintf format v logger =
     (if Logger_Level logger < LevelError then []
      else let msg = Sprintf format v
           in CallSprintf format v # fanout ErrorInterface CallError msg (Logger_Handlers logger))"

definition Logger_Fatal ::
  "(string \<Rightarrow> arg list \<Rightarrow> string) \<Rightarrow> string \<Rightarrow> arg list \<Rightarrow> Logger \<Rightarrow> event list \<times> outcome" where
  "Logger_Fatal Sprintf format v logger =
     (if Logger_Level logger < LevelError then ([], Returns)
      else let msg = Sprintf format v
           in (CallSprintf format v # fanout FatalInterface CallFatal msg (Logger_Handlers logger),
               Exits 1))"

text \<open>\<open>Write\<close> gives the pair it returns, \<open>(len(b), nil)\<close>, and the events of its call
  of \<open>Info\<close>.\<close>

definition Logger_Write ::
  "(string \<Rightarrow> arg list \<Rightarrow> string) \<Rightarrow> string \<Rightarrow> Logger \<Rightarrow> (int \<times> error option) \<times> event list" where
  "Logger_Write Sprintf b logger =
     ((int (length b), None),
      Logger_Info Sprintf ''%s'' [ArgString (TrimRight b [CHR 0x0A])] logger)"

text \<open>
  The operand-substituting part of \<open>fmt.Sprintf\<close> for the verb \<open>%s\<close> and string
  operands, used where an example needs a formatter that computes.
\<close>

fun verb_s :: "string \<Rightarrow> arg list \<Rightarrow> string" where
  "verb_s (c # d # rest) (ArgString a # as) =
     (if c = CHR ''%'' \<and> d = CHR ''s'' then a @ verb_s rest as
      else c # verb_s (d # rest) (ArgString a # as))"
| "verb_s (c # rest) as = c # verb_s rest as"
| "verb_s [] as = []"

section \<open>The registry of namespaces\<close>

text \<open>
  The package variables: the prefix, the map \<open>loggers\<close> from lower-cased names to
  \<open>*Logger\<close>, and \<open>DefaultLogger\<close>. A \<open>*Logger\<close> is an index into \<open>heap\<close>, the
  list of the \<open>Logger\<close> objects constructed so far, so that two pointers are the same object
  exactly when they are the same index. The map is an association list with one pair per key.
  \<open>trace\<close> collects the events of the calls made on the way. The mutex only serialises the
  calls and does not appear.
\<close>

record world =
  defaultEnvironmentVariablePrefix :: string
  loggers :: "(string \<times> nat) list"
  heap :: "Logger list"
  DefaultLogger :: "nat option"
  trace :: "event list"

text \<open>
  \<open>Namespace\<close>. The type \<open>DefaultHandler\<close> is declared elsewhere in the package and
  nothing here depends on which interfaces it satisfies; the handler that
  \<open>&DefaultHandler{}\<close> makes is the argument \<open>dh\<close>.
\<close>

definition Namespace ::
  "casing \<Rightarrow> (string \<Rightarrow> string) \<Rightarrow> handler \<Rightarrow> string \<Rightarrow> world \<Rightarrow> nat \<times> world" where
  "Namespace U Getenv dh namespace w =
     (let namespaceLower = ToLower U namespace
      in case map_of (loggers w) namespaceLower of
           Some logger \<Rightarrow> (logger, w)
         | None \<Rightarrow>
             let logger0 = \<lparr>Logger_Namespace = namespace, Logger_Level = 0, Logger_Handlers = []\<rparr>;
                 (logger1, evs1) =
                   Logger_SetLevel
                     (GetLevelByString
                        (getEnvVarLevel U Getenv (defaultEnvironmentVariablePrefix w) namespace))
                     logger0;
                 (logger2, evs2) = Logger_AddHandler dh logger1;
                 p = length (heap w)
             in (p, w\<lparr>loggers := AList.update namespaceLower p (loggers w),
                       heap := heap w @ [logger2],
                       trace := trace w @ evs1 @ evs2\<rparr>))"

text \<open>The loop \<open>for namespace := range loggers\<close>: it returns at the first key that is
  not empty.\<close>

fun rangeNonRoot :: "(string \<times> nat) list \<Rightarrow> bool" where
  "rangeNonRoot [] = False"
| "rangeNonRoot ((namespace, logger) # rest) =
     (if namespace \<noteq> [] then True else rangeNonRoot rest)"

definition setEnvironmentVariablePrefix :: "string \<Rightarrow> world \<Rightarrow> error option \<times> world" where
  "setEnvironmentVariablePrefix prefix w =
     (if rangeNonRoot (loggers w)
      then (Some ''Cannot change prefix because some logs have already been use'', w)
      else (None, w\<lparr>loggers := AList.delete [] (loggers w),
                     defaultEnvironmentVariablePrefix := prefix\<rparr>))"

definition SetDefaultEnvironmentVariablePrefix ::
  "casing \<Rightarrow> (string \<Rightarrow> string) \<Rightarrow> handler \<Rightarrow> string \<Rightarrow> world \<Rightarrow> error option \<times> world" where
  "SetDefaultEnvironmentVariablePrefix U Getenv dh prefix w =
     (case setEnvironmentVariablePrefix prefix w of
        (Some err, w') \<Rightarrow> (Some err, w')
      | (None, w') \<Rightarrow>
          let (p, w'') = Namespace U Getenv dh [] w'
          in (None, w''\<lparr>DefaultLogger := Some p\<rparr>))"

definition GetDefaultEnvironmentVariablePrefix :: "world \<Rightarrow> string" where
  "GetDefaultEnvironmentVariablePrefix w = defaultEnvironmentVariablePrefix w"

text \<open>The package at the end of its initialisation: the variables hold their initial
  values and \<open>DefaultLogger = Namespace("")\<close> has run.\<close>

definition package_init :: "casing \<Rightarrow> (string \<Rightarrow> string) \<Rightarrow> handler \<Rightarrow> world" where
  "package_init U Getenv dh =
     (let (p, w) = Namespace U Getenv dh []
                     \<lparr>defaultEnvironmentVariablePrefix = ''SEVERINO_LOGGER'', loggers = [],
                      heap = [], DefaultLogger = None, trace = []\<rparr>
      in w\<lparr>DefaultLogger := Some p\<rparr>)"

text \<open>
  A history of calls of the two functions that read or write \<open>loggers\<close>. Each call
  carries the environment that \<open>os.Getenv\<close> sees while it runs.
\<close>

datatype call =
    CallNamespace "string \<Rightarrow> string" string
  | CallSetPrefix "string \<Rightarrow> string" string

fun run :: "casing \<Rightarrow> handler \<Rightarrow> call list \<Rightarrow> world \<Rightarrow> world" where
  "run U dh [] w = w"
| "run U dh (CallNamespace Getenv namespace # cs) w =
     run U dh cs (snd (Namespace U Getenv dh namespace w))"
| "run U dh (CallSetPrefix Getenv prefix # cs) w =
     run U dh cs (snd (SetDefaultEnvironmentVariablePrefix U Getenv dh prefix w))"

text \<open>How many of the calls of \<open>SetDefaultEnvironmentVariablePrefix\<close> in a history return
  without an error.\<close>

fun prefixChanges :: "casing \<Rightarrow> handler \<Rightarrow> call list \<Rightarrow> world \<Rightarrow> nat" where
  "prefixChanges U dh [] w = 0"
| "prefixChanges U dh (CallNamespace Getenv namespace # cs) w =
     prefixChanges U dh cs (snd (Namespace U Getenv dh namespace w))"
| "prefixChanges U dh (CallSetPrefix Getenv prefix # cs) w =
     (if fst (SetDefaultEnvironmentVariablePrefix U Getenv dh prefix w) = None then 1 else 0)
     + prefixChanges U dh cs (snd (SetDefaultEnvironmentVariablePrefix U Getenv dh prefix w))"

text \<open>Which events are calls of \<open>fmt.Sprintf\<close>.\<close>

fun isSprintf :: "event \<Rightarrow> bool" where
  "isSprintf (CallSprintf format v) = True"
| "isSprintf _ = False"

text \<open>
  The trimming as the specification words it, "trimmed of a single trailing newline", to be
  compared with the \<open>strings.TrimRight\<close> of \<open>Write\<close>.
\<close>

definition spec_trimSingleNewline :: "string \<Rightarrow> string" where
  "spec_trimSingleNewline b = (if b \<noteq> [] \<and> last b = CHR 0x0A then butlast b else b)"

text \<open>How many of the \<open>Logger\<close> objects constructed so far carry a name whose lower-case
  form is \<open>k\<close>.\<close>

definition constructed :: "casing \<Rightarrow> string \<Rightarrow> world \<Rightarrow> nat" where
  "constructed U k w = length (filter (\<lambda>l. ToLower U (Logger_Namespace l) = k) (heap w))"

section \<open>Sample handlers, loggers and environments\<close>

definition H1 :: handler where
  "H1 = \<lparr>hid = 1, implements = {InitInterface, InfoInterface, ErrorInterface}\<rparr>"

definition H2 :: handler where
  "H2 = \<lparr>hid = 2, implements = {DebugInterface, InfoInterface, WarnInterface, FatalInterface}\<rparr>"

definition H3 :: handler where
  "H3 = \<lparr>hid = 3, implements = {}\<rparr>"

definition sampleLogger :: "Level \<Rightarrow> Logger" where
  "sampleLogger lv =
     \<lparr>Logger_Namespace = ''svc-a'', Logger_Level = lv, Logger_Handlers = [H1, H3, H2]\<rparr>"

definition emptyEnv :: "string \<Rightarrow> string" where
  "emptyEnv k = []"

definition sampleEnv :: "string \<Rightarrow> string" where
  "sampleEnv k =
     (if k = ''SEVERINO_LOGGER'' then ''warn''
      else if k = ''SEVERINO_LOGGER_PAYMENTS'' then ''debug''
      else if k = ''LOG_SVC_A_V1'' then ''ERROR''
      else if k = ''APP'' then ''Debug''
      else if k = ''SEVERINO_LOGGER_CAF'' @ [CHR 0xC3, CHR 0x89] then ''Error''
      else [])"

text \<open>
  Three entries of the Unicode tables, in UTF-8: the Kelvin sign \<open>U+212A\<close> has the lower
  case \<open>k\<close>, and \<open>U+00E9\<close> and \<open>U+00C9\<close> are the lower and the upper case of each
  other. \<open>sampleCasing\<close> knows these and leaves every other string as it is.
\<close>

definition kelvin :: string where
  "kelvin = [CHR 0xE2, CHR 0x84, CHR 0xAA]"

definition cafe :: string where
  "cafe = ''caf'' @ [CHR 0xC3, CHR 0xA9]"

definition sampleCasing :: casing where
  "sampleCasing =
     \<lparr>unicodeToLower = (\<lambda>s. if s = kelvin then ''k''
                             else if s = ''CAF'' @ [CHR 0xC3, CHR 0x89] then cafe else s),
      unicodeToUpper = (\<lambda>s. if s = cafe then ''CAF'' @ [CHR 0xC3, CHR 0x89] else s)\<rparr>"

lemmas Level_defs = LevelNone_def LevelError_def LevelWarn_def LevelInfo_def LevelDebug_def

lemmas sample_defs = H1_def H2_def H3_def sampleLogger_def

section \<open>Facts about the string functions\<close>

lemma char_eq_code: "(c = d) = ((of_char c :: nat) = of_char d)"
  by simp

lemma of_char_lt_256: "(of_char c :: nat) < 256"
proof -
  have "(of_char c :: nat) = of_char (char_of (of_char c :: nat))"
    by simp
  also have "\<dots> = (of_char c :: nat) mod 256"
    by (simp only: of_char_of)
  finally have "(of_char c :: nat) = of_char c mod 256" .
  then show ?thesis
    by (metis mod_less_divisor zero_less_numeral)
qed

lemma toLowerByte_code:
  "(of_char (toLowerByte c) :: nat) =
     (if 65 \<le> (of_char c :: nat) \<and> (of_char c :: nat) \<le> 90 then of_char c + 32 else of_char c)"
  using of_char_lt_256[of c] by (simp add: toLowerByte_def less_eq_char_def of_char_of)

lemmas byte_eval =
  ToLower_def ToUpper_def toLowerByte_def toUpperByte_def less_eq_char_def less_char_def
  char_eq_code of_char_of

text \<open>One step of the \<open>EqualFold\<close> loop accepts two bytes exactly when they have the
  same lower-case form.\<close>

lemma fold_step:
  "(tr = sr \<or>
     (let lo = (if tr < sr then tr else sr); hi = (if tr < sr then sr else tr)
      in CHR ''A'' \<le> lo \<and> lo \<le> CHR ''Z'' \<and> hi = char_of (of_char lo + (32::nat))))
   \<longleftrightarrow> toLowerByte sr = toLowerByte tr"
proof -
  define a b where "a = (of_char sr :: nat)" and "b = (of_char tr :: nat)"
  have a: "a < 256" and b: "b < 256"
    unfolding a_def b_def by (rule of_char_lt_256)+
  have L: "(tr = sr \<or>
     (let lo = (if tr < sr then tr else sr); hi = (if tr < sr then sr else tr)
      in CHR ''A'' \<le> lo \<and> lo \<le> CHR ''Z'' \<and> hi = char_of (of_char lo + (32::nat))))
     \<longleftrightarrow> (b = a \<or> (let lo = (if b < a then b else a); hi = (if b < a then a else b)
           in 65 \<le> lo \<and> lo \<le> 90 \<and> hi = (lo + 32) mod 256))"
    unfolding a_def b_def
    by (simp add: less_eq_char_def less_char_def Let_def char_eq_code of_char_of
          del: of_char_eq_iff)
  have R: "toLowerByte sr = toLowerByte tr \<longleftrightarrow>
     (if 65 \<le> a \<and> a \<le> 90 then a + 32 else a) = (if 65 \<le> b \<and> b \<le> 90 then b + 32 else b)"
    unfolding a_def b_def char_eq_code[of "toLowerByte sr"] toLowerByte_code ..
  show ?thesis
    unfolding L R using a b by (auto simp: Let_def)
qed

lemma EqualFold_lower: "EqualFold s t \<longleftrightarrow> map toLowerByte s = map toLowerByte t"
proof (induction s t rule: EqualFold.induct)
  case 1
  show ?case by simp
next
  case (2 sr s tr t)
  show ?case
    using 2 fold_step[of tr sr] by (auto simp add: Let_def split: if_splits)
qed simp_all

lemma ToLower_Nil: "ToLower U [] = []"
  by (simp add: ToLower_def)

lemma lower_literals:
  "map toLowerByte ''debug'' = ''debug''" "map toLowerByte ''info'' = ''info''"
  "map toLowerByte ''warn'' = ''warn''" "map toLowerByte ''error'' = ''error''"
  "map toLowerByte ''none'' = ''none''"
  by (simp_all add: byte_eval)

lemma replaceFrom_single:
  "replaceFrom s [a] [b] = map (\<lambda>c. if c = a then b else c) s"
  by (induction s) simp_all

lemma Replace_single: "Replace s [a] [b] = map (\<lambda>c. if c = a then b else c) s"
  by (simp add: Replace_def replaceFrom_single)

section \<open>Level parsing\<close>

text \<open>
  C6. \<open>GetLevelByString\<close> is a total function that compares its argument, without regard
  to letter case, with the five level names: a string whose bytes, with the letters
  \<open>A\<close>..\<open>Z\<close> turned into lower case, are
  \<open>debug\<close>, \<open>info\<close>, \<open>warn\<close>, \<open>error\<close> or \<open>none\<close> gives the level of that name, and
  every other string, the empty one included, gives \<open>LevelInfo\<close>.
\<close>

theorem GetLevelByString_cases:
  "GetLevelByString s =
     (if map toLowerByte s = ''debug'' then LevelDebug
      else if map toLowerByte s = ''info'' then LevelInfo
      else if map toLowerByte s = ''warn'' then LevelWarn
      else if map toLowerByte s = ''error'' then LevelError
      else if map toLowerByte s = ''none'' then LevelNone
      else LevelInfo)
   \<and> GetLevelByString [] = LevelInfo
   \<and> GetLevelByString s \<in> {LevelNone, LevelError, LevelWarn, LevelInfo, LevelDebug}"
proof -
  have eq: "GetLevelByString s =
     (if map toLowerByte s = ''debug'' then LevelDebug
      else if map toLowerByte s = ''info'' then LevelInfo
      else if map toLowerByte s = ''warn'' then LevelWarn
      else if map toLowerByte s = ''error'' then LevelError
      else if map toLowerByte s = ''none'' then LevelNone
      else LevelInfo)" for s
    unfolding GetLevelByString_def EqualFold_lower lower_literals ..
  have "GetLevelByString [] = LevelInfo"
    unfolding eq by simp
  moreover have "GetLevelByString s \<in> {LevelNone, LevelError, LevelWarn, LevelInfo, LevelDebug}"
    unfolding eq by simp
  ultimately show ?thesis
    using eq[of s] by blast
qed

theorem GetLevelByString_cases_witness:
  "GetLevelByString ''WaRn'' = LevelWarn \<and> GetLevelByString ''NONE'' = LevelNone
   \<and> GetLevelByString ''bogus'' = LevelInfo \<and> GetLevelByString ''debug '' = LevelInfo"
  using GetLevelByString_cases[of "''WaRn''"] GetLevelByString_cases[of "''NONE''"]
    GetLevelByString_cases[of "''bogus''"] GetLevelByString_cases[of "''debug ''"]
  by (simp add: byte_eval)

section \<open>Facts about the loops over the handlers\<close>

lemma fanout_filter:
  "fanout cap call msg hs = map (\<lambda>h. call (hid h) msg) (filter (\<lambda>h. cap \<in> implements h) hs)"
  by (induction hs) simp_all

lemma initHandlers_filter:
  "initHandlers ns lv hs = map (\<lambda>h. CallInit (hid h) ns lv) (filter (\<lambda>h. InitInterface \<in> implements h) hs)"
  by (induction hs) simp_all

lemma fanout_mem:
  "h \<in> set hs \<Longrightarrow> cap \<in> implements h \<Longrightarrow> call (hid h) msg \<in> set (fanout cap call msg hs)"
  by (induction hs) auto

lemma filter_isSprintf_map:
  "(\<And>i m. \<not> isSprintf (call i m)) \<Longrightarrow> filter isSprintf (map (\<lambda>h. call (hid h) msg) hs) = []"
  by (induction hs) simp_all

section \<open>Level from the environment\<close>

lemma envName:
  "Replace (Replace s ''-'' ''_'') ''.'' ''_''
     = map (\<lambda>c. if c = CHR ''-'' \<or> c = CHR ''.'' then CHR ''_'' else c) s"
  by (simp add: Replace_single)

text \<open>
  C5. Level from the environment. For a name that is not empty the variable read is the prefix,
  an underscore, and the name in upper case with every \<open>-\<close> and \<open>.\<close> turned into
  \<open>_\<close>; when its value is empty the variable named by the prefix alone is read instead.
  For the empty name the variable named by the prefix is read. The value is returned in lower
  case. So a variable for the namespace wins over the blanket variable. Upper and lower case
  are those of \<open>strings.ToUpper\<close> and \<open>strings.ToLower\<close>, for every string.
\<close>

theorem getEnvVarLevel_resolution:
  "getEnvVarLevel U Getenv prefix namespace =
     ToLower U
       (if namespace = [] then Getenv prefix
        else if Getenv (prefix @ ''_'' @
                  map (\<lambda>c. if c = CHR ''-'' \<or> c = CHR ''.'' then CHR ''_'' else c)
                    (ToUpper U namespace)) \<noteq> []
        then Getenv (prefix @ ''_'' @
                  map (\<lambda>c. if c = CHR ''-'' \<or> c = CHR ''.'' then CHR ''_'' else c)
                    (ToUpper U namespace))
        else Getenv prefix)"
proof (cases "namespace = []")
  case True
  then show ?thesis
    by (simp add: getEnvVarLevel_def Let_def)
next
  case False
  have "Replace (Replace (ToUpper U namespace) ''-'' ''_'') ''.'' ''_''
          = map (\<lambda>c. if c = CHR ''-'' \<or> c = CHR ''.'' then CHR ''_'' else c) (ToUpper U namespace)"
    by (rule envName)
  with False show ?thesis
    by (simp add: getEnvVarLevel_def Let_def)
qed

theorem getEnvVarLevel_resolution_witness:
  "GetLevelByString (getEnvVarLevel sampleCasing sampleEnv ''SEVERINO_LOGGER'' ''payments'') = LevelDebug
   \<and> GetLevelByString (getEnvVarLevel sampleCasing sampleEnv ''SEVERINO_LOGGER'' ''billing'') = LevelWarn
   \<and> GetLevelByString (getEnvVarLevel sampleCasing sampleEnv ''SEVERINO_LOGGER'' []) = LevelWarn
   \<and> getEnvVarLevel sampleCasing sampleEnv ''LOG'' ''svc-a.v1'' = ''error''
   \<and> getEnvVarLevel sampleCasing sampleEnv ''SEVERINO_LOGGER'' cafe = ''error''"
  using getEnvVarLevel_resolution[of sampleCasing sampleEnv "''SEVERINO_LOGGER''" "''payments''"]
    getEnvVarLevel_resolution[of sampleCasing sampleEnv "''SEVERINO_LOGGER''" "''billing''"]
    getEnvVarLevel_resolution[of sampleCasing sampleEnv "''SEVERINO_LOGGER''" "[]"]
    getEnvVarLevel_resolution[of sampleCasing sampleEnv "''LOG''" "''svc-a.v1''"]
    getEnvVarLevel_resolution[of sampleCasing sampleEnv "''SEVERINO_LOGGER''" cafe]
  by (simp add: sampleEnv_def sampleCasing_def cafe_def kelvin_def byte_eval GetLevelByString_def
        Level_defs)

section \<open>Filtering by level and fan-out\<close>

text \<open>
  C1. Level filtering. A call of \<open>Debug\<close>, \<open>Info\<close>, \<open>Warn\<close> or \<open>Error\<close> causes
  no event at all, neither a call of \<open>fmt.Sprintf\<close> nor a call of a handler, exactly when
  the level of the logger is strictly below the severity of the call. A handler of the logger
  that implements the interface of the call receives the formatted message exactly when the
  severity is at most the level. At \<open>LevelNone\<close> all four calls do nothing, at
  \<open>LevelDebug\<close> all four are carried out.
\<close>

theorem level_filtering:
  "(Logger_Debug Sprintf format v logger = [] \<longleftrightarrow> Logger_Level logger < LevelDebug)
   \<and> (Logger_Info Sprintf format v logger = [] \<longleftrightarrow> Logger_Level logger < LevelInfo)
   \<and> (Logger_Warn Sprintf format v logger = [] \<longleftrightarrow> Logger_Level logger < LevelWarn)
   \<and> (Logger_Error Sprintf format v logger = [] \<longleftrightarrow> Logger_Level logger < LevelError)
   \<and> (\<forall>h \<in> set (Logger_Handlers logger).
        (DebugInterface \<in> implements h \<longrightarrow>
           (CallDebug (hid h) (Sprintf format v) \<in> set (Logger_Debug Sprintf format v logger)
            \<longleftrightarrow> LevelDebug \<le> Logger_Level logger))
      \<and> (InfoInterface \<in> implements h \<longrightarrow>
           (CallInfo (hid h) (Sprintf format v) \<in> set (Logger_Info Sprintf format v logger)
            \<longleftrightarrow> LevelInfo \<le> Logger_Level logger))
      \<and> (WarnInterface \<in> implements h \<longrightarrow>
           (CallWarn (hid h) (Sprintf format v) \<in> set (Logger_Warn Sprintf format v logger)
            \<longleftrightarrow> LevelWarn \<le> Logger_Level logger))
      \<and> (ErrorInterface \<in> implements h \<longrightarrow>
           (CallError (hid h) (Sprintf format v) \<in> set (Logger_Error Sprintf format v logger)
            \<longleftrightarrow> LevelError \<le> Logger_Level logger)))
   \<and> (Logger_Level logger = LevelNone \<longrightarrow>
         Logger_Debug Sprintf format v logger = [] \<and> Logger_Info Sprintf format v logger = []
         \<and> Logger_Warn Sprintf format v logger = [] \<and> Logger_Error Sprintf format v logger = [])
   \<and> (Logger_Level logger = LevelDebug \<longrightarrow>
         Logger_Debug Sprintf format v logger \<noteq> [] \<and> Logger_Info Sprintf format v logger \<noteq> []
         \<and> Logger_Warn Sprintf format v logger \<noteq> [] \<and> Logger_Error Sprintf format v logger \<noteq> [])"
proof -
  have gate: "Logger_Debug Sprintf format v logger = [] \<longleftrightarrow> Logger_Level logger < LevelDebug"
    "Logger_Info Sprintf format v logger = [] \<longleftrightarrow> Logger_Level logger < LevelInfo"
    "Logger_Warn Sprintf format v logger = [] \<longleftrightarrow> Logger_Level logger < LevelWarn"
    "Logger_Error Sprintf format v logger = [] \<longleftrightarrow> Logger_Level logger < LevelError"
    by (simp_all add: Logger_Debug_def Logger_Info_def Logger_Warn_def Logger_Error_def Let_def)
  have disp: "(DebugInterface \<in> implements h \<longrightarrow>
           (CallDebug (hid h) (Sprintf format v) \<in> set (Logger_Debug Sprintf format v logger)
            \<longleftrightarrow> LevelDebug \<le> Logger_Level logger))
      \<and> (InfoInterface \<in> implements h \<longrightarrow>
           (CallInfo (hid h) (Sprintf format v) \<in> set (Logger_Info Sprintf format v logger)
            \<longleftrightarrow> LevelInfo \<le> Logger_Level logger))
      \<and> (WarnInterface \<in> implements h \<longrightarrow>
           (CallWarn (hid h) (Sprintf format v) \<in> set (Logger_Warn Sprintf format v logger)
            \<longleftrightarrow> LevelWarn \<le> Logger_Level logger))
      \<and> (ErrorInterface \<in> implements h \<longrightarrow>
           (CallError (hid h) (Sprintf format v) \<in> set (Logger_Error Sprintf format v logger)
            \<longleftrightarrow> LevelError \<le> Logger_Level logger))"
    if "h \<in> set (Logger_Handlers logger)" for h
    using that
    by (simp add: Logger_Debug_def Logger_Info_def Logger_Warn_def Logger_Error_def Let_def
          fanout_mem not_less)
  have none: "Logger_Level logger = LevelNone \<longrightarrow>
         Logger_Debug Sprintf format v logger = [] \<and> Logger_Info Sprintf format v logger = []
         \<and> Logger_Warn Sprintf format v logger = [] \<and> Logger_Error Sprintf format v logger = []"
    unfolding gate by (simp add: Level_defs)
  have debug: "Logger_Level logger = LevelDebug \<longrightarrow>
         Logger_Debug Sprintf format v logger \<noteq> [] \<and> Logger_Info Sprintf format v logger \<noteq> []
         \<and> Logger_Warn Sprintf format v logger \<noteq> [] \<and> Logger_Error Sprintf format v logger \<noteq> []"
    unfolding gate by (simp add: Level_defs)
  show ?thesis
    using gate disp none debug by blast
qed

theorem level_filtering_witness:
  "Logger_Info verb_s ''x=%s'' [ArgString ''1''] (sampleLogger LevelWarn) = []
   \<and> Logger_Warn verb_s ''x=%s'' [ArgString ''1''] (sampleLogger LevelWarn)
       = [CallSprintf ''x=%s'' [ArgString ''1''], CallWarn 2 ''x=1'']
   \<and> Logger_Error verb_s ''x=%s'' [ArgString ''1''] (sampleLogger LevelNone) = []
   \<and> Logger_Debug verb_s ''x=%s'' [ArgString ''1''] (sampleLogger LevelDebug)
       = [CallSprintf ''x=%s'' [ArgString ''1''], CallDebug 2 ''x=1'']"
  using level_filtering[of verb_s "''x=%s''" "[ArgString ''1'']" "sampleLogger LevelWarn"]
    level_filtering[of verb_s "''x=%s''" "[ArgString ''1'']" "sampleLogger LevelNone"]
    level_filtering[of verb_s "''x=%s''" "[ArgString ''1'']" "sampleLogger LevelDebug"]
  by (simp add: sample_defs Level_defs Logger_Warn_def Logger_Debug_def)

text \<open>
  C7. Fan-out. When the level of the logger enables the call, the events of the call are one
  call of \<open>fmt.Sprintf\<close> followed by the calls of the method on the handlers that implement
  the interface of the call, in the order of the handler list; the other handlers are passed
  over. \<open>AddHandler\<close> appends, so after attaching \<open>h1\<close> and then \<open>h2\<close> an
  \<open>Info\<close> message reaches \<open>h1\<close> before \<open>h2\<close>, and both after the handlers that
  were there before.
\<close>

theorem fanout_order:
  "(LevelDebug \<le> Logger_Level logger \<longrightarrow>
      Logger_Debug Sprintf format v logger =
        CallSprintf format v #
          map (\<lambda>h. CallDebug (hid h) (Sprintf format v))
            (filter (\<lambda>h. DebugInterface \<in> implements h) (Logger_Handlers logger))
      \<and> filter isSprintf (Logger_Debug Sprintf format v logger) = [CallSprintf format v])
   \<and> (LevelInfo \<le> Logger_Level logger \<longrightarrow>
      Logger_Info Sprintf format v logger =
        CallSprintf format v #
          map (\<lambda>h. CallInfo (hid h) (Sprintf format v))
            (filter (\<lambda>h. InfoInterface \<in> implements h) (Logger_Handlers logger))
      \<and> filter isSprintf (Logger_Info Sprintf format v logger) = [CallSprintf format v])
   \<and> (LevelWarn \<le> Logger_Level logger \<longrightarrow>
      Logger_Warn Sprintf format v logger =
        CallSprintf format v #
          map (\<lambda>h. CallWarn (hid h) (Sprintf format v))
            (filter (\<lambda>h. WarnInterface \<in> implements h) (Logger_Handlers logger))
      \<and> filter isSprintf (Logger_Warn Sprintf format v logger) = [CallSprintf format v])
   \<and> (LevelError \<le> Logger_Level logger \<longrightarrow>
      Logger_Error Sprintf format v logger =
        CallSprintf format v #
          map (\<lambda>h. CallError (hid h) (Sprintf format v))
            (filter (\<lambda>h. ErrorInterface \<in> implements h) (Logger_Handlers logger))
      \<and> filter isSprintf (Logger_Error Sprintf format v logger) = [CallSprintf format v])
   \<and> (LevelInfo \<le> Logger_Level logger \<and> InfoInterface \<in> implements h1
        \<and> InfoInterface \<in> implements h2 \<longrightarrow>
      Logger_Info Sprintf format v (fst (Logger_AddHandler h2 (fst (Logger_AddHandler h1 logger))))
        = Logger_Info Sprintf format v logger
            @ [CallInfo (hid h1) (Sprintf format v), CallInfo (hid h2) (Sprintf format v)])"
  by (simp add: Logger_Debug_def Logger_Info_def Logger_Warn_def Logger_Error_def
        Logger_AddHandler_def fanout_filter Let_def not_less filter_isSprintf_map)

theorem fanout_order_witness:
  "Logger_Info verb_s ''up %s'' [ArgString ''now'']
     (fst (Logger_AddHandler H2 (fst (Logger_AddHandler H1
        \<lparr>Logger_Namespace = ''svc-a'', Logger_Level = LevelInfo, Logger_Handlers = [H3]\<rparr>))))
   = [CallSprintf ''up %s'' [ArgString ''now''], CallInfo 1 ''up now'', CallInfo 2 ''up now'']
   \<and> Logger_Error verb_s ''e'' [] (sampleLogger LevelDebug) = [CallSprintf ''e'' [], CallError 1 ''e'']
   \<and> Logger_Warn verb_s ''w'' [] (sampleLogger LevelDebug) = [CallSprintf ''w'' [], CallWarn 2 ''w'']
   \<and> Logger_Debug verb_s ''d'' [] (sampleLogger LevelDebug) = [CallSprintf ''d'' [], CallDebug 2 ''d'']"
  using fanout_order[of "\<lparr>Logger_Namespace = ''svc-a'', Logger_Level = LevelInfo, Logger_Handlers = [H3]\<rparr>"
      verb_s "''up %s''" "[ArgString ''now'']" H1 H2]
    fanout_order[of "sampleLogger LevelDebug" verb_s "''e''" "[]" H1 H2]
    fanout_order[of "sampleLogger LevelDebug" verb_s "''w''" "[]" H1 H2]
    fanout_order[of "sampleLogger LevelDebug" verb_s "''d''" "[]" H1 H2]
  by (simp add: sample_defs Level_defs)

text \<open>
  C8. \<open>Init\<close>. \<open>AddHandler\<close> puts the handler at the end of the handler list and,
  when the handler implements \<open>InitInterface\<close>, calls its \<open>Init\<close> with the namespace
  and the level of the logger. \<open>SetLevel\<close> stores the level and then calls \<open>Init\<close>
  with the namespace and the new level on the handlers of the list that implement
  \<open>InitInterface\<close>, in order, and on no other.
\<close>

theorem Init_invocation:
  "Logger_AddHandler h logger =
     (logger\<lparr>Logger_Handlers := Logger_Handlers logger @ [h]\<rparr>,
      if InitInterface \<in> implements h
      then [CallInit (hid h) (Logger_Namespace logger) (Logger_Level logger)] else [])
   \<and> Logger_SetLevel level logger =
     (logger\<lparr>Logger_Level := level\<rparr>,
      map (\<lambda>h. CallInit (hid h) (Logger_Namespace logger) level)
        (filter (\<lambda>h. InitInterface \<in> implements h) (Logger_Handlers logger)))"
proof
  show "Logger_AddHandler h logger =
     (logger\<lparr>Logger_Handlers := Logger_Handlers logger @ [h]\<rparr>,
      if InitInterface \<in> implements h
      then [CallInit (hid h) (Logger_Namespace logger) (Logger_Level logger)] else [])"
    by (simp add: Logger_AddHandler_def Let_def)
next
  have "initHandlers (Logger_Namespace logger) level (Logger_Handlers logger)
      = map (\<lambda>h. CallInit (hid h) (Logger_Namespace logger) level)
          (filter (\<lambda>h. InitInterface \<in> implements h) (Logger_Handlers logger))"
    by (rule initHandlers_filter)
  then show "Logger_SetLevel level logger =
     (logger\<lparr>Logger_Level := level\<rparr>,
      map (\<lambda>h. CallInit (hid h) (Logger_Namespace logger) level)
        (filter (\<lambda>h. InitInterface \<in> implements h) (Logger_Handlers logger)))"
    by (simp add: Logger_SetLevel_def Let_def)
qed

theorem Init_invocation_witness:
  "Logger_AddHandler H1 \<lparr>Logger_Namespace = ''Svc'', Logger_Level = LevelWarn, Logger_Handlers = [H2]\<rparr>
     = (\<lparr>Logger_Namespace = ''Svc'', Logger_Level = LevelWarn, Logger_Handlers = [H2, H1]\<rparr>,
        [CallInit 1 ''Svc'' LevelWarn])
   \<and> Logger_AddHandler H2 \<lparr>Logger_Namespace = ''Svc'', Logger_Level = LevelWarn, Logger_Handlers = []\<rparr>
     = (\<lparr>Logger_Namespace = ''Svc'', Logger_Level = LevelWarn, Logger_Handlers = [H2]\<rparr>, [])
   \<and> Logger_SetLevel LevelDebug
        \<lparr>Logger_Namespace = ''Svc'', Logger_Level = LevelWarn, Logger_Handlers = [H2, H1, H3, H1]\<rparr>
     = (\<lparr>Logger_Namespace = ''Svc'', Logger_Level = LevelDebug, Logger_Handlers = [H2, H1, H3, H1]\<rparr>,
        [CallInit 1 ''Svc'' LevelDebug, CallInit 1 ''Svc'' LevelDebug])"
  using Init_invocation[of H1 "\<lparr>Logger_Namespace = ''Svc'', Logger_Level = LevelWarn, Logger_Handlers = [H2]\<rparr>" LevelDebug]
    Init_invocation[of H2 "\<lparr>Logger_Namespace = ''Svc'', Logger_Level = LevelWarn, Logger_Handlers = []\<rparr>" LevelDebug]
    Init_invocation[of H2 "\<lparr>Logger_Namespace = ''Svc'', Logger_Level = LevelWarn, Logger_Handlers = [H2, H1, H3, H1]\<rparr>" LevelDebug]
  by (simp add: sample_defs)

section \<open>Fatal\<close>

text \<open>
  C2. \<open>Fatal\<close> starts with the same test as \<open>Error\<close> and returns when it fails, so
  \<open>os.Exit\<close> is not reached: on a logger at \<open>LevelNone\<close> a call of \<open>Fatal\<close>
  calls no handler and returns to its caller; the process goes on.
\<close>

theorem Fatal_returns_below_Error:
  "Logger_Fatal verb_s ''boom'' [] (sampleLogger LevelNone) = ([], Returns)"
  by (simp add: Logger_Fatal_def sample_defs Level_defs)

text \<open>
  C2, as the code has it. When the level of the logger is at least \<open>LevelError\<close>,
  \<open>Fatal\<close> formats the message once, hands it in attachment order to every handler that
  implements \<open>FatalInterface\<close> and ends the process with status 1, also when no handler
  implements that interface. When the level is below \<open>LevelError\<close>, \<open>Fatal\<close> does
  nothing and returns. The test is the one of \<open>Error\<close>: the one call is silent exactly
  when the other is.
\<close>

theorem Fatal_gate:
  "Logger_Fatal Sprintf format v logger =
     (if LevelError \<le> Logger_Level logger
      then (CallSprintf format v #
              map (\<lambda>h. CallFatal (hid h) (Sprintf format v))
                (filter (\<lambda>h. FatalInterface \<in> implements h) (Logger_Handlers logger)),
            Exits 1)
      else ([], Returns))
   \<and> (fst (Logger_Fatal Sprintf format v logger) = [] \<longleftrightarrow> Logger_Error Sprintf format v logger = [])
   \<and> (LevelError \<le> Logger_Level logger \<and> (\<forall>h \<in> set (Logger_Handlers logger). FatalInterface \<notin> implements h)
        \<longrightarrow> Logger_Fatal Sprintf format v logger = ([CallSprintf format v], Exits 1))"
proof (cases "Logger_Level logger < LevelError")
  case True
  then show ?thesis
    by (simp add: Logger_Fatal_def Logger_Error_def not_le)
next
  case False
  have calls: "fanout FatalInterface CallFatal (Sprintf format v) (Logger_Handlers logger)
      = map (\<lambda>h. CallFatal (hid h) (Sprintf format v))
          (filter (\<lambda>h. FatalInterface \<in> implements h) (Logger_Handlers logger))"
    by (rule fanout_filter)
  have none: "filter (\<lambda>h. FatalInterface \<in> implements h) (Logger_Handlers logger) = []"
    if "\<forall>h \<in> set (Logger_Handlers logger). FatalInterface \<notin> implements h"
    using that by (simp add: filter_empty_conv)
  from False show ?thesis
    by (auto simp add: Logger_Fatal_def Logger_Error_def calls none Let_def not_less)
qed

theorem Fatal_gate_witness:
  "Logger_Fatal verb_s ''boom %s'' [ArgString ''x''] (sampleLogger LevelError)
     = ([CallSprintf ''boom %s'' [ArgString ''x''], CallFatal 2 ''boom x''], Exits 1)
   \<and> Logger_Fatal verb_s ''boom'' []
        \<lparr>Logger_Namespace = [], Logger_Level = LevelInfo, Logger_Handlers = [H1, H3]\<rparr>
     = ([CallSprintf ''boom'' []], Exits 1)
   \<and> Logger_Fatal verb_s ''boom'' [] (sampleLogger LevelNone) = ([], Returns)"
  using Fatal_gate[of verb_s "''boom %s''" "[ArgString ''x'']" "sampleLogger LevelError"]
    Fatal_gate[of verb_s "''boom''" "[]" "\<lparr>Logger_Namespace = [], Logger_Level = LevelInfo, Logger_Handlers = [H1, H3]\<rparr>"]
    Fatal_gate[of verb_s "''boom''" "[]" "sampleLogger LevelNone"]
  by (simp add: sample_defs Level_defs)

section \<open>The logger as a writer\<close>

lemma TrimRight_decomp:
  "\<exists>n. b = TrimRight b [c] @ replicate n c"
proof -
  have "\<exists>n. xs = replicate n c @ dropWhile (\<lambda>x. x \<in> set [c]) xs" for xs :: string
  proof (induction xs)
    case Nil
    show ?case by simp
  next
    case (Cons x xs)
    show ?case
    proof (cases "x = c")
      case True
      from Cons obtain n where "xs = replicate n c @ dropWhile (\<lambda>x. x \<in> set [c]) xs" ..
      then have "x # xs = replicate (Suc n) c @ dropWhile (\<lambda>x. x \<in> set [c]) (x # xs)"
        using True by simp
      then show ?thesis ..
    next
      case False
      then have "x # xs = replicate 0 c @ dropWhile (\<lambda>x. x \<in> set [c]) (x # xs)" by simp
      then show ?thesis ..
    qed
  qed
  then obtain n where "rev b = replicate n c @ dropWhile (\<lambda>x. x \<in> set [c]) (rev b)" ..
  then have "rev (rev b) = rev (replicate n c @ dropWhile (\<lambda>x. x \<in> set [c]) (rev b))"
    by simp
  then have "b = TrimRight b [c] @ replicate n c"
    by (simp add: TrimRight_def)
  then show ?thesis ..
qed

lemma TrimRight_last:
  "TrimRight b [c] \<noteq> [] \<Longrightarrow> last (TrimRight b [c]) \<noteq> c"
proof -
  assume ne: "TrimRight b [c] \<noteq> []"
  then have ne': "dropWhile (\<lambda>x. x \<in> set [c]) (rev b) \<noteq> []"
    by (simp add: TrimRight_def)
  then have "\<not> (hd (dropWhile (\<lambda>x. x \<in> set [c]) (rev b)) \<in> set [c])"
    by (rule hd_dropWhile)
  moreover have "last (TrimRight b [c]) = hd (dropWhile (\<lambda>x. x \<in> set [c]) (rev b))"
    using ne' by (simp add: TrimRight_def last_rev)
  ultimately show ?thesis by simp
qed

text \<open>
  C9. \<open>Write\<close> cuts off every trailing newline, not one: for the bytes
  \<open>"hello\n\n"\<close> the message handed to the handlers is \<open>"hello"\<close>, where the removal
  of a single trailing newline leaves \<open>"hello\n"\<close>.
\<close>

theorem Write_strips_every_newline:
  "snd (Logger_Write verb_s ''hello\<newline>\<newline>'' (sampleLogger LevelInfo))
     = [CallSprintf ''%s'' [ArgString ''hello''], CallInfo 1 ''hello'', CallInfo 2 ''hello'']
   \<and> spec_trimSingleNewline ''hello\<newline>\<newline>'' = ''hello\<newline>''"
  by (simp add: Logger_Write_def Logger_Info_def TrimRight_def spec_trimSingleNewline_def
        sample_defs Level_defs Let_def)

text \<open>
  C9, as the code has it. \<open>Write(b)\<close> is one call of \<open>Info\<close> with the format
  \<open>%s\<close> and, as its operand, \<open>b\<close> without all of its trailing newlines: \<open>b\<close> is
  that operand followed by newlines only, and the operand does not end in a newline. With a
  formatter that renders the operand as it is and a level of at least \<open>LevelInfo\<close>, every
  handler that implements \<open>InfoInterface\<close> receives the trimmed string once.
\<close>

theorem Write_forwards_trimmed:
  "snd (Logger_Write Sprintf b logger)
     = Logger_Info Sprintf ''%s'' [ArgString (TrimRight b ''\<newline>'')] logger
   \<and> (\<exists>n. b = TrimRight b ''\<newline>'' @ replicate n (CHR 0x0A))
   \<and> (TrimRight b ''\<newline>'' \<noteq> [] \<longrightarrow> last (TrimRight b ''\<newline>'') \<noteq> CHR 0x0A)
   \<and> (Sprintf ''%s'' [ArgString (TrimRight b ''\<newline>'')] = TrimRight b ''\<newline>''
        \<and> LevelInfo \<le> Logger_Level logger \<longrightarrow>
      snd (Logger_Write Sprintf b logger)
        = CallSprintf ''%s'' [ArgString (TrimRight b ''\<newline>'')] #
            map (\<lambda>h. CallInfo (hid h) (TrimRight b ''\<newline>''))
              (filter (\<lambda>h. InfoInterface \<in> implements h) (Logger_Handlers logger)))"
proof -
  have 1: "snd (Logger_Write Sprintf b logger)
     = Logger_Info Sprintf ''%s'' [ArgString (TrimRight b ''\<newline>'')] logger"
    by (simp add: Logger_Write_def)
  have 2: "\<exists>n. b = TrimRight b ''\<newline>'' @ replicate n (CHR 0x0A)"
    by (rule TrimRight_decomp)
  have 3: "TrimRight b ''\<newline>'' \<noteq> [] \<longrightarrow> last (TrimRight b ''\<newline>'') \<noteq> CHR 0x0A"
    using TrimRight_last[of b "CHR 0x0A"] by blast
  have 4: "Sprintf ''%s'' [ArgString (TrimRight b ''\<newline>'')] = TrimRight b ''\<newline>''
        \<and> LevelInfo \<le> Logger_Level logger \<longrightarrow>
      snd (Logger_Write Sprintf b logger)
        = CallSprintf ''%s'' [ArgString (TrimRight b ''\<newline>'')] #
            map (\<lambda>h. CallInfo (hid h) (TrimRight b ''\<newline>''))
              (filter (\<lambda>h. InfoInterface \<in> implements h) (Logger_Handlers logger))"
    by (simp add: Logger_Write_def Logger_Info_def fanout_filter Let_def not_less)
  show ?thesis using 1 2 3 4 by blast
qed

theorem Write_forwards_trimmed_witness:
  "TrimRight ''hello\<newline>'' ''\<newline>'' \<noteq> []
   \<and> verb_s ''%s'' [ArgString (TrimRight ''hello\<newline>'' ''\<newline>'')] = TrimRight ''hello\<newline>'' ''\<newline>''
   \<and> LevelInfo \<le> Logger_Level \<lparr>Logger_Namespace = [], Logger_Level = LevelInfo, Logger_Handlers = [H1]\<rparr>
   \<and> snd (Logger_Write verb_s ''hello\<newline>''
            \<lparr>Logger_Namespace = [], Logger_Level = LevelInfo, Logger_Handlers = [H1]\<rparr>)
       = [CallSprintf ''%s'' [ArgString ''hello''], CallInfo 1 ''hello'']"
  using Write_forwards_trimmed[of verb_s "''hello\<newline>''"
      "\<lparr>Logger_Namespace = [], Logger_Level = LevelInfo, Logger_Handlers = [H1]\<rparr>"]
  by (simp add: TrimRight_def sample_defs Level_defs Logger_Write_def Logger_Info_def Let_def)

text \<open>
  C10. \<open>Write(b)\<close> returns the length of \<open>b\<close> as it was passed, before trimming, and
  the error \<open>nil\<close>, whatever the logger; also when the level is below \<open>LevelInfo\<close> and
  no handler is called.
\<close>

theorem Write_result:
  "fst (Logger_Write Sprintf b logger) = (int (length b), None)
   \<and> (Logger_Level logger < LevelInfo \<longrightarrow> snd (Logger_Write Sprintf b logger) = [])"
proof
  show "fst (Logger_Write Sprintf b logger) = (int (length b), None)"
    by (simp add: Logger_Write_def)
next
  show "Logger_Level logger < LevelInfo \<longrightarrow> snd (Logger_Write Sprintf b logger) = []"
    by (simp add: Logger_Write_def Logger_Info_def)
qed

theorem Write_result_witness:
  "Logger_Level (sampleLogger LevelWarn) < LevelInfo
   \<and> Logger_Write verb_s ''hello\<newline>'' (sampleLogger LevelWarn) = ((6, None), [])
   \<and> fst (Logger_Write verb_s ''a\<newline>b\<newline>\<newline>'' (sampleLogger LevelDebug)) = (5, None)"
  using Write_result[of verb_s "''hello\<newline>''" "sampleLogger LevelWarn"]
    Write_result[of verb_s "''a\<newline>b\<newline>\<newline>''" "sampleLogger LevelDebug"]
  by (simp add: sample_defs Level_defs prod_eq_iff)

section \<open>The registry\<close>

lemma rangeNonRoot_iff: "rangeNonRoot xs \<longleftrightarrow> (\<exists>k \<in> fst ` set xs. k \<noteq> [])"
  by (induction xs rule: rangeNonRoot.induct) auto

lemma Namespace_hit:
  "map_of (loggers w) (ToLower U n) = Some p \<Longrightarrow> Namespace U g d n w = (p, w)"
  by (simp add: Namespace_def)

lemma Namespace_miss:
  "map_of (loggers w) (ToLower U n) = None \<Longrightarrow>
   Namespace U g d n w =
     (length (heap w),
      w\<lparr>loggers := AList.update (ToLower U n) (length (heap w)) (loggers w),
        heap := heap w @
          [\<lparr>Logger_Namespace = n,
            Logger_Level = GetLevelByString (getEnvVarLevel U g (defaultEnvironmentVariablePrefix w) n),
            Logger_Handlers = [d]\<rparr>],
        trace := trace w @
          (if InitInterface \<in> implements d
           then [CallInit (hid d) n
                   (GetLevelByString (getEnvVarLevel U g (defaultEnvironmentVariablePrefix w) n))]
           else [])\<rparr>)"
  by (simp add: Namespace_def Logger_SetLevel_def Logger_AddHandler_def Let_def)

lemma Namespace_binds:
  "map_of (loggers (snd (Namespace U g d n w))) (ToLower U n) = Some (fst (Namespace U g d n w))"
proof (cases "map_of (loggers w) (ToLower U n)")
  case None
  then show ?thesis by (simp add: Namespace_miss update_conv')
next
  case (Some p)
  then show ?thesis by (simp add: Namespace_hit)
qed

lemma Namespace_preserves:
  "map_of (loggers w) k = Some p \<Longrightarrow> map_of (loggers (snd (Namespace U g d n w))) k = Some p"
proof (cases "map_of (loggers w) (ToLower U n)")
  case None
  assume "map_of (loggers w) k = Some p"
  with None have "k \<noteq> ToLower U n" by auto
  with None \<open>map_of (loggers w) k = Some p\<close> show ?thesis
    by (simp add: Namespace_miss update_conv')
next
  case (Some q)
  assume "map_of (loggers w) k = Some p"
  with Some show ?thesis by (simp add: Namespace_hit)
qed

lemma Namespace_twice:
  assumes "ToLower U n1 = ToLower U n2"
  shows "Namespace U g2 d2 n2 (snd (Namespace U g1 d1 n1 w)) = Namespace U g1 d1 n1 w"
proof -
  have "map_of (loggers (snd (Namespace U g1 d1 n1 w))) (ToLower U n2)
          = Some (fst (Namespace U g1 d1 n1 w))"
    using Namespace_binds[of U g1 d1 n1 w] assms by simp
  then have "Namespace U g2 d2 n2 (snd (Namespace U g1 d1 n1 w))
               = (fst (Namespace U g1 d1 n1 w), snd (Namespace U g1 d1 n1 w))"
    by (rule Namespace_hit)
  then show ?thesis by simp
qed

lemma Namespace_heap:
  "heap (snd (Namespace U g d n w)) =
     (if map_of (loggers w) (ToLower U n) = None
      then heap w @ [\<lparr>Logger_Namespace = n,
            Logger_Level = GetLevelByString (getEnvVarLevel U g (defaultEnvironmentVariablePrefix w) n),
            Logger_Handlers = [d]\<rparr>]
      else heap w)"
  by (cases "map_of (loggers w) (ToLower U n)") (simp_all add: Namespace_miss Namespace_hit)

lemma map_of_in_keys: "map_of xs k = Some p \<Longrightarrow> k \<in> fst ` set xs"
  by (metis domI dom_map_of_conv_image_fst)

lemma SetDefault_error:
  "rangeNonRoot (loggers w) \<Longrightarrow>
   SetDefaultEnvironmentVariablePrefix U g d pre w =
     (Some ''Cannot change prefix because some logs have already been use'', w)"
  by (simp add: SetDefaultEnvironmentVariablePrefix_def setEnvironmentVariablePrefix_def)

lemma SetDefault_ok:
  "\<not> rangeNonRoot (loggers w) \<Longrightarrow>
   SetDefaultEnvironmentVariablePrefix U g d pre w =
     (None,
      w\<lparr>loggers := AList.update [] (length (heap w)) (AList.delete [] (loggers w)),
        heap := heap w @
          [\<lparr>Logger_Namespace = [], Logger_Level = GetLevelByString (getEnvVarLevel U g pre []),
            Logger_Handlers = [d]\<rparr>],
        trace := trace w @
          (if InitInterface \<in> implements d
           then [CallInit (hid d) [] (GetLevelByString (getEnvVarLevel U g pre []))] else []),
        defaultEnvironmentVariablePrefix := pre,
        DefaultLogger := Some (length (heap w))\<rparr>)"
  by (simp add: SetDefaultEnvironmentVariablePrefix_def setEnvironmentVariablePrefix_def
        Namespace_miss delete_conv' ToLower_Nil)

lemma SetDefault_succeeds_iff:
  "fst (SetDefaultEnvironmentVariablePrefix U g d pre w) = None \<longleftrightarrow> \<not> rangeNonRoot (loggers w)"
  by (cases "rangeNonRoot (loggers w)") (simp_all add: SetDefault_error SetDefault_ok)

text \<open>A binding of the registry survives every history in which no prefix change succeeds.\<close>

lemma run_preserves:
  "prefixChanges U d cs w = 0 \<Longrightarrow> map_of (loggers w) k = Some p \<Longrightarrow>
   map_of (loggers (run U d cs w)) k = Some p"
proof (induction cs arbitrary: w)
  case Nil
  then show ?case by simp
next
  case (Cons c cs)
  show ?case
  proof (cases c)
    case (CallNamespace g n)
    have "map_of (loggers (snd (Namespace U g d n w))) k = Some p"
      using Cons.prems(2) by (rule Namespace_preserves)
    moreover have "prefixChanges U d cs (snd (Namespace U g d n w)) = 0"
      using Cons.prems(1) CallNamespace by simp
    ultimately show ?thesis
      using Cons.IH CallNamespace by simp
  next
    case (CallSetPrefix g pre)
    have fails: "fst (SetDefaultEnvironmentVariablePrefix U g d pre w) \<noteq> None"
      using Cons.prems(1) CallSetPrefix by (auto split: if_splits)
    then have "rangeNonRoot (loggers w)"
      by (simp add: SetDefault_succeeds_iff)
    then have same: "snd (SetDefaultEnvironmentVariablePrefix U g d pre w) = w"
      by (simp add: SetDefault_error)
    have "prefixChanges U d cs w = 0"
      using Cons.prems(1) CallSetPrefix fails same by simp
    then show ?thesis
      using Cons.IH[OF _ Cons.prems(2)] CallSetPrefix same by simp
  qed
qed

text \<open>While the registry has a key that is not empty, no prefix change succeeds.\<close>

lemma prefixChanges_nonroot:
  "k \<noteq> [] \<Longrightarrow> map_of (loggers w) k = Some p \<Longrightarrow> prefixChanges U d cs w = 0"
proof (induction cs arbitrary: w)
  case Nil
  then show ?case by simp
next
  case (Cons c cs)
  show ?case
  proof (cases c)
    case (CallNamespace g n)
    have "map_of (loggers (snd (Namespace U g d n w))) k = Some p"
      using Cons.prems(2) by (rule Namespace_preserves)
    then show ?thesis
      using Cons.IH[OF Cons.prems(1)] CallNamespace by simp
  next
    case (CallSetPrefix g pre)
    have nonroot: "rangeNonRoot (loggers w)"
      using Cons.prems map_of_in_keys[of "loggers w" k p] rangeNonRoot_iff[of "loggers w"] by blast
    then have "SetDefaultEnvironmentVariablePrefix U g d pre w
                 = (Some ''Cannot change prefix because some logs have already been use'', w)"
      by (rule SetDefault_error)
    then show ?thesis
      using Cons.IH[OF Cons.prems] CallSetPrefix by simp
  qed
qed

lemma constructed_Namespace:
  assumes "constructed U k w = (if map_of (loggers w) k = None then 0 else 1)"
  shows "constructed U k (snd (Namespace U g d n w))
           = (if map_of (loggers (snd (Namespace U g d n w))) k = None then 0 else 1)"
proof (cases "map_of (loggers w) (ToLower U n)")
  case (Some p)
  then show ?thesis using assms by (simp add: Namespace_hit)
next
  case None
  show ?thesis
  proof (cases "k = ToLower U n")
    case True
    then show ?thesis using None assms
      by (simp add: Namespace_miss constructed_def update_conv')
  next
    case False
    then show ?thesis using None assms
      by (simp add: Namespace_miss constructed_def update_conv')
  qed
qed

lemma constructed_SetDefault:
  assumes "k \<noteq> []" "constructed U k w = (if map_of (loggers w) k = None then 0 else 1)"
  shows "constructed U k (snd (SetDefaultEnvironmentVariablePrefix U g d pre w))
           = (if map_of (loggers (snd (SetDefaultEnvironmentVariablePrefix U g d pre w))) k = None
              then 0 else 1)"
proof (cases "rangeNonRoot (loggers w)")
  case True
  then show ?thesis using assms by (simp add: SetDefault_error)
next
  case False
  then show ?thesis using assms
    by (simp add: SetDefault_ok constructed_def update_conv' delete_conv' ToLower_Nil)
qed

lemma constructed_run:
  "k \<noteq> [] \<Longrightarrow> constructed U k w = (if map_of (loggers w) k = None then 0 else 1) \<Longrightarrow>
   constructed U k (run U d cs w) = (if map_of (loggers (run U d cs w)) k = None then 0 else 1)"
proof (induction cs arbitrary: w)
  case Nil
  then show ?case by simp
next
  case (Cons c cs)
  show ?case
  proof (cases c)
    case (CallNamespace g n)
    then show ?thesis
      using Cons.IH[OF Cons.prems(1) constructed_Namespace[OF Cons.prems(2)]] by simp
  next
    case (CallSetPrefix g pre)
    then show ?thesis
      using Cons.IH[OF Cons.prems(1) constructed_SetDefault[OF Cons.prems]] by simp
  qed
qed

text \<open>
  While the root is bound, \<open>Namespace\<close> constructs no \<open>Logger\<close> with the empty lower-cased
  name, and a prefix change constructs one exactly when it succeeds.
\<close>

lemma root_Namespace:
  assumes "map_of (loggers w) [] = Some r"
  shows "constructed U [] (snd (Namespace U g d n w)) = constructed U [] w"
proof (cases "map_of (loggers w) (ToLower U n)")
  case (Some p)
  then show ?thesis by (simp add: Namespace_hit)
next
  case None
  with assms have "ToLower U n \<noteq> []" by auto
  with None show ?thesis
    by (simp add: Namespace_miss constructed_def)
qed

lemma root_SetDefault:
  "constructed U [] (snd (SetDefaultEnvironmentVariablePrefix U g d pre w))
     = constructed U [] w
       + (if fst (SetDefaultEnvironmentVariablePrefix U g d pre w) = None then 1 else 0)
   \<and> (map_of (loggers w) [] \<noteq> None \<longrightarrow>
        map_of (loggers (snd (SetDefaultEnvironmentVariablePrefix U g d pre w))) [] \<noteq> None)"
proof (cases "rangeNonRoot (loggers w)")
  case True
  then show ?thesis by (simp add: SetDefault_error)
next
  case False
  then show ?thesis
    by (simp add: SetDefault_ok constructed_def update_conv' ToLower_Nil)
qed

lemma root_run:
  "map_of (loggers w) [] \<noteq> None \<Longrightarrow>
   constructed U [] (run U d cs w) = constructed U [] w + prefixChanges U d cs w"
proof (induction cs arbitrary: w)
  case Nil
  then show ?case by simp
next
  case (Cons c cs)
  from Cons.prems obtain r where r: "map_of (loggers w) [] = Some r" by auto
  show ?case
  proof (cases c)
    case (CallNamespace g n)
    have "map_of (loggers (snd (Namespace U g d n w))) [] \<noteq> None"
      using Namespace_preserves[OF r, of U g d n] by simp
    then show ?thesis
      using Cons.IH[of "snd (Namespace U g d n w)"] root_Namespace[OF r, of U g d n] CallNamespace
      by simp
  next
    case (CallSetPrefix g pre)
    have "map_of (loggers (snd (SetDefaultEnvironmentVariablePrefix U g d pre w))) [] \<noteq> None"
      using root_SetDefault[of U g d pre w] Cons.prems by blast
    then show ?thesis
      using Cons.IH[of "snd (SetDefaultEnvironmentVariablePrefix U g d pre w)"]
        root_SetDefault[of U g d pre w] CallSetPrefix
      by simp
  qed
qed

lemma package_init_eq:
  "package_init U g d =
     \<lparr>defaultEnvironmentVariablePrefix = ''SEVERINO_LOGGER'', loggers = [([], 0)],
      heap = [\<lparr>Logger_Namespace = [],
               Logger_Level = GetLevelByString (getEnvVarLevel U g ''SEVERINO_LOGGER'' []),
               Logger_Handlers = [d]\<rparr>],
      DefaultLogger = Some 0,
      trace = (if InitInterface \<in> implements d
               then [CallInit (hid d) [] (GetLevelByString (getEnvVarLevel U g ''SEVERINO_LOGGER'' []))]
               else [])\<rparr>"
  by (simp add: package_init_def Namespace_miss ToLower_Nil)

lemma constructed_init:
  "constructed U k (package_init U g d) = (if map_of (loggers (package_init U g d)) k = None then 0 else 1)"
  by (auto simp add: package_init_eq constructed_def ToLower_Nil)

lemmas registry_eval =
  package_init_def Namespace_def SetDefaultEnvironmentVariablePrefix_def
  setEnvironmentVariablePrefix_def Logger_SetLevel_def Logger_AddHandler_def
  getEnvVarLevel_def GetLevelByString_def Replace_def emptyEnv_def sampleEnv_def
  sampleCasing_def kelvin_def cafe_def constructed_def Let_def

text \<open>
  C4. Guard of the prefix change. \<open>SetDefaultEnvironmentVariablePrefix\<close> returns an error
  exactly when the registry has a key that is not empty, and it is the error of
  \<open>setEnvironmentVariablePrefix\<close>. With the error nothing is changed: the prefix, the
  registry and the \<open>Logger\<close> objects are as before. Without it
  \<open>setEnvironmentVariablePrefix\<close> removes the entry of the root and stores the new prefix,
  and the resolution of the root that follows constructs a new root \<open>Logger\<close> whose level
  is read from the environment under the new prefix, and makes it \<open>DefaultLogger\<close>.
\<close>

theorem prefix_change_guard:
  "(fst (SetDefaultEnvironmentVariablePrefix U g d pre w) \<noteq> None
      \<longleftrightarrow> (\<exists>k \<in> fst ` set (loggers w). k \<noteq> []))
   \<and> fst (setEnvironmentVariablePrefix pre w) = fst (SetDefaultEnvironmentVariablePrefix U g d pre w)
   \<and> (fst (SetDefaultEnvironmentVariablePrefix U g d pre w) \<noteq> None \<longrightarrow>
        snd (SetDefaultEnvironmentVariablePrefix U g d pre w) = w
        \<and> snd (setEnvironmentVariablePrefix pre w) = w)
   \<and> (fst (SetDefaultEnvironmentVariablePrefix U g d pre w) = None \<longrightarrow>
        snd (setEnvironmentVariablePrefix pre w)
          = w\<lparr>loggers := AList.delete [] (loggers w), defaultEnvironmentVariablePrefix := pre\<rparr>
        \<and> map_of (loggers (snd (setEnvironmentVariablePrefix pre w))) [] = None
        \<and> GetDefaultEnvironmentVariablePrefix (snd (SetDefaultEnvironmentVariablePrefix U g d pre w)) = pre
        \<and> heap (snd (SetDefaultEnvironmentVariablePrefix U g d pre w))
            = heap w @ [\<lparr>Logger_Namespace = [],
                         Logger_Level = GetLevelByString (getEnvVarLevel U g pre []),
                         Logger_Handlers = [d]\<rparr>]
        \<and> DefaultLogger (snd (SetDefaultEnvironmentVariablePrefix U g d pre w)) = Some (length (heap w))
        \<and> map_of (loggers (snd (SetDefaultEnvironmentVariablePrefix U g d pre w))) []
            = Some (length (heap w)))"
proof (cases "rangeNonRoot (loggers w)")
  case True
  then show ?thesis
    using rangeNonRoot_iff[of "loggers w"]
    by (simp add: SetDefault_error setEnvironmentVariablePrefix_def)
next
  case False
  then show ?thesis
    using rangeNonRoot_iff[of "loggers w"]
    by (simp add: SetDefault_ok setEnvironmentVariablePrefix_def delete_conv' update_conv'
          GetDefaultEnvironmentVariablePrefix_def)
qed

theorem prefix_change_guard_witness:
  "SetDefaultEnvironmentVariablePrefix sampleCasing sampleEnv H3 ''APP''
        (package_init sampleCasing emptyEnv H3)
     = (None, \<lparr>defaultEnvironmentVariablePrefix = ''APP'', loggers = [([], 1)],
               heap = [\<lparr>Logger_Namespace = [], Logger_Level = LevelInfo, Logger_Handlers = [H3]\<rparr>,
                       \<lparr>Logger_Namespace = [], Logger_Level = LevelDebug, Logger_Handlers = [H3]\<rparr>],
               DefaultLogger = Some 1, trace = []\<rparr>)
   \<and> SetDefaultEnvironmentVariablePrefix sampleCasing sampleEnv H3 ''APP''
        (snd (Namespace sampleCasing emptyEnv H3 ''x'' (package_init sampleCasing emptyEnv H3)))
     = (Some ''Cannot change prefix because some logs have already been use'',
        snd (Namespace sampleCasing emptyEnv H3 ''x'' (package_init sampleCasing emptyEnv H3)))
   \<and> GetDefaultEnvironmentVariablePrefix
        (snd (SetDefaultEnvironmentVariablePrefix sampleCasing sampleEnv H3 ''APP''
           (snd (Namespace sampleCasing emptyEnv H3 ''x'' (package_init sampleCasing emptyEnv H3)))))
       = ''SEVERINO_LOGGER''"
  using prefix_change_guard[of sampleCasing sampleEnv H3 "''APP''" "package_init sampleCasing emptyEnv H3"]
    prefix_change_guard[of sampleCasing sampleEnv H3 "''APP''"
      "snd (Namespace sampleCasing emptyEnv H3 ''x'' (package_init sampleCasing emptyEnv H3))"]
  by (simp add: registry_eval byte_eval H3_def Level_defs GetDefaultEnvironmentVariablePrefix_def)

text \<open>
  C3. The root logger is constructed more than once. After the initialisation of the package
  \<open>Namespace("")\<close> gives the object 0; a successful
  \<open>SetDefaultEnvironmentVariablePrefix\<close> deletes the entry of the root and constructs it
  again, so that the next \<open>Namespace("")\<close> gives the object 1, and two \<open>Logger\<close>
  objects have been constructed for the name \<open>""\<close>.
\<close>

theorem root_constructed_twice:
  "fst (Namespace sampleCasing emptyEnv H3 [] (package_init sampleCasing emptyEnv H3)) = 0
   \<and> fst (SetDefaultEnvironmentVariablePrefix sampleCasing emptyEnv H3 ''APP''
            (package_init sampleCasing emptyEnv H3)) = None
   \<and> fst (Namespace sampleCasing emptyEnv H3 []
            (snd (SetDefaultEnvironmentVariablePrefix sampleCasing emptyEnv H3 ''APP''
                    (package_init sampleCasing emptyEnv H3)))) = 1
   \<and> constructed sampleCasing []
        (snd (SetDefaultEnvironmentVariablePrefix sampleCasing emptyEnv H3 ''APP''
                (package_init sampleCasing emptyEnv H3))) = 2"
  by (simp add: registry_eval byte_eval H3_def Level_defs)

text \<open>
  C3, as the code has it. For two names with the same lower-case form, a call of
  \<open>Namespace\<close> that follows another one returns the same pointer and leaves the registry
  and every \<open>Logger\<close> object as they were, and a call of \<open>Namespace\<close> constructs one
  \<open>Logger\<close> when the lower-cased name is not a key of the registry and none otherwise.
  The second call still returns the same pointer after any history of \<open>Namespace\<close> and
  \<open>SetDefaultEnvironmentVariablePrefix\<close> calls in which no prefix change succeeds, the root
  name included; and when the lower-cased name is not empty, no prefix change can succeed
  after the first call. Counted from the initialisation of the package, at most one
  \<open>Logger\<close> is ever constructed for each lower-cased name that is not empty, and for the
  root exactly one plus one for every prefix change that succeeded. After a prefix change
  that succeeds, \<open>Namespace\<close> returns for the root the \<open>Logger\<close> constructed by that
  change, a new object.
\<close>

theorem Namespace_idempotent:
  "(ToLower U n1 = ToLower U n2 \<longrightarrow>
      Namespace U g2 d2 n2 (snd (Namespace U g1 d1 n1 w)) = Namespace U g1 d1 n1 w)
   \<and> heap (snd (Namespace U g1 d1 n1 w)) =
       (if map_of (loggers w) (ToLower U n1) = None
        then heap w @
          [\<lparr>Logger_Namespace = n1,
            Logger_Level = GetLevelByString (getEnvVarLevel U g1 (defaultEnvironmentVariablePrefix w) n1),
            Logger_Handlers = [d1]\<rparr>]
        else heap w)
   \<and> (ToLower U n1 = ToLower U n2 \<and> prefixChanges U d cs (snd (Namespace U g1 d1 n1 w)) = 0 \<longrightarrow>
        fst (Namespace U g2 d2 n2 (run U d cs (snd (Namespace U g1 d1 n1 w))))
          = fst (Namespace U g1 d1 n1 w))
   \<and> (ToLower U n1 \<noteq> [] \<longrightarrow> prefixChanges U d cs (snd (Namespace U g1 d1 n1 w)) = 0)
   \<and> (ToLower U n1 = ToLower U n2 \<and> ToLower U n1 \<noteq> [] \<longrightarrow>
        fst (Namespace U g2 d2 n2 (run U d cs (snd (Namespace U g1 d1 n1 w))))
          = fst (Namespace U g1 d1 n1 w))
   \<and> (k \<noteq> [] \<longrightarrow> constructed U k (run U d cs (package_init U g d)) \<le> 1)
   \<and> constructed U [] (run U d cs (package_init U g d))
       = 1 + prefixChanges U d cs (package_init U g d)
   \<and> (ToLower U n2 = [] \<and> fst (SetDefaultEnvironmentVariablePrefix U g d pre w) = None \<longrightarrow>
        fst (Namespace U g2 d2 n2 (snd (SetDefaultEnvironmentVariablePrefix U g d pre w)))
          = length (heap w)
        \<and> heap (snd (SetDefaultEnvironmentVariablePrefix U g d pre w)) ! length (heap w)
          = \<lparr>Logger_Namespace = [], Logger_Level = GetLevelByString (getEnvVarLevel U g pre []),
             Logger_Handlers = [d]\<rparr>)"
proof -
  let ?w1 = "snd (Namespace U g1 d1 n1 w)"
  have a: "ToLower U n1 = ToLower U n2 \<longrightarrow> Namespace U g2 d2 n2 ?w1 = Namespace U g1 d1 n1 w"
    using Namespace_twice by blast
  have b: "heap ?w1 =
       (if map_of (loggers w) (ToLower U n1) = None
        then heap w @
          [\<lparr>Logger_Namespace = n1,
            Logger_Level = GetLevelByString (getEnvVarLevel U g1 (defaultEnvironmentVariablePrefix w) n1),
            Logger_Handlers = [d1]\<rparr>]
        else heap w)"
    by (rule Namespace_heap)
  have bound: "map_of (loggers ?w1) (ToLower U n1) = Some (fst (Namespace U g1 d1 n1 w))"
    by (rule Namespace_binds)
  have c: "fst (Namespace U g2 d2 n2 (run U d cs ?w1)) = fst (Namespace U g1 d1 n1 w)"
    if eq: "ToLower U n1 = ToLower U n2" and none: "prefixChanges U d cs ?w1 = 0"
  proof -
    have "map_of (loggers (run U d cs ?w1)) (ToLower U n2) = Some (fst (Namespace U g1 d1 n1 w))"
      using run_preserves[OF none bound] eq by simp
    then show ?thesis
      by (simp add: Namespace_hit)
  qed
  have e: "prefixChanges U d cs ?w1 = 0" if "ToLower U n1 \<noteq> []"
    using that bound by (rule prefixChanges_nonroot)
  have f: "constructed U k (run U d cs (package_init U g d)) \<le> 1" if "k \<noteq> []"
    using constructed_run[OF that constructed_init, of U d cs g d] by simp
  have "map_of (loggers (package_init U g d)) [] \<noteq> None"
    by (simp add: package_init_eq)
  then have "constructed U [] (run U d cs (package_init U g d))
      = constructed U [] (package_init U g d) + prefixChanges U d cs (package_init U g d)"
    by (rule root_run)
  moreover have "constructed U [] (package_init U g d) = 1"
    by (simp add: package_init_eq constructed_def ToLower_Nil)
  ultimately have h: "constructed U [] (run U d cs (package_init U g d))
      = 1 + prefixChanges U d cs (package_init U g d)"
    by simp
  have i: "fst (Namespace U g2 d2 n2 (snd (SetDefaultEnvironmentVariablePrefix U g d pre w)))
          = length (heap w)
        \<and> heap (snd (SetDefaultEnvironmentVariablePrefix U g d pre w)) ! length (heap w)
          = \<lparr>Logger_Namespace = [], Logger_Level = GetLevelByString (getEnvVarLevel U g pre []),
             Logger_Handlers = [d]\<rparr>"
    if root: "ToLower U n2 = []" and ok: "fst (SetDefaultEnvironmentVariablePrefix U g d pre w) = None"
  proof -
    have "\<not> rangeNonRoot (loggers w)"
      using ok by (simp add: SetDefault_succeeds_iff)
    then show ?thesis
      using root by (simp add: SetDefault_ok Namespace_hit update_conv')
  qed
  have P3: "ToLower U n1 = ToLower U n2 \<and> prefixChanges U d cs ?w1 = 0 \<longrightarrow>
        fst (Namespace U g2 d2 n2 (run U d cs ?w1)) = fst (Namespace U g1 d1 n1 w)"
    using c by auto
  have P4: "ToLower U n1 \<noteq> [] \<longrightarrow> prefixChanges U d cs ?w1 = 0"
    using e by auto
  have P5: "ToLower U n1 = ToLower U n2 \<and> ToLower U n1 \<noteq> [] \<longrightarrow>
        fst (Namespace U g2 d2 n2 (run U d cs ?w1)) = fst (Namespace U g1 d1 n1 w)"
    using c e by auto
  have P6: "k \<noteq> [] \<longrightarrow> constructed U k (run U d cs (package_init U g d)) \<le> 1"
    using f by auto
  have P8: "ToLower U n2 = [] \<and> fst (SetDefaultEnvironmentVariablePrefix U g d pre w) = None \<longrightarrow>
        fst (Namespace U g2 d2 n2 (snd (SetDefaultEnvironmentVariablePrefix U g d pre w)))
          = length (heap w)
        \<and> heap (snd (SetDefaultEnvironmentVariablePrefix U g d pre w)) ! length (heap w)
          = \<lparr>Logger_Namespace = [], Logger_Level = GetLevelByString (getEnvVarLevel U g pre []),
             Logger_Handlers = [d]\<rparr>"
    using i by auto
  show ?thesis
    by (intro conjI a b P3 P4 P5 P6 h P8)
qed

theorem Namespace_idempotent_witness:
  "ToLower sampleCasing ''Svc-A'' = ToLower sampleCasing ''svc-a''
   \<and> ToLower sampleCasing ''Svc-A'' \<noteq> []
   \<and> Namespace sampleCasing emptyEnv H3 ''Svc-A'' (package_init sampleCasing emptyEnv H3)
       = (1, \<lparr>defaultEnvironmentVariablePrefix = ''SEVERINO_LOGGER'',
              loggers = [([], 0), (''svc-a'', 1)],
              heap = [\<lparr>Logger_Namespace = [], Logger_Level = LevelInfo, Logger_Handlers = [H3]\<rparr>,
                      \<lparr>Logger_Namespace = ''Svc-A'', Logger_Level = LevelInfo, Logger_Handlers = [H3]\<rparr>],
              DefaultLogger = Some 0, trace = []\<rparr>)
   \<and> fst (Namespace sampleCasing sampleEnv H2 ''svc-a''
            (run sampleCasing H3 [CallNamespace emptyEnv ''other'', CallSetPrefix emptyEnv ''APP'']
               (snd (Namespace sampleCasing emptyEnv H3 ''Svc-A''
                       (package_init sampleCasing emptyEnv H3))))) = 1
   \<and> ToLower sampleCasing kelvin = ToLower sampleCasing ''k''
   \<and> fst (Namespace sampleCasing emptyEnv H3 kelvin (package_init sampleCasing emptyEnv H3)) = 1
   \<and> fst (Namespace sampleCasing emptyEnv H3 ''k''
            (snd (Namespace sampleCasing emptyEnv H3 kelvin
                    (package_init sampleCasing emptyEnv H3)))) = 1
   \<and> prefixChanges sampleCasing H3 [CallNamespace emptyEnv ''x'', CallSetPrefix emptyEnv ''APP'']
        (snd (Namespace sampleCasing emptyEnv H3 [] (package_init sampleCasing emptyEnv H3))) = 0
   \<and> fst (Namespace sampleCasing sampleEnv H2 []
            (run sampleCasing H3 [CallNamespace emptyEnv ''x'', CallSetPrefix emptyEnv ''APP'']
               (snd (Namespace sampleCasing emptyEnv H3 []
                       (package_init sampleCasing emptyEnv H3))))) = 0
   \<and> constructed sampleCasing ''svc-a''
        (run sampleCasing H3 [CallNamespace emptyEnv ''Svc-A'', CallNamespace sampleEnv ''svc-a'']
           (package_init sampleCasing emptyEnv H3)) = 1
   \<and> prefixChanges sampleCasing H3 [CallSetPrefix emptyEnv ''APP'', CallNamespace emptyEnv []]
        (package_init sampleCasing emptyEnv H3) = 1
   \<and> constructed sampleCasing []
        (run sampleCasing H3 [CallSetPrefix emptyEnv ''APP'', CallNamespace emptyEnv []]
           (package_init sampleCasing emptyEnv H3)) = 2
   \<and> fst (Namespace sampleCasing sampleEnv H2 []
            (snd (SetDefaultEnvironmentVariablePrefix sampleCasing emptyEnv H3 ''APP''
                    (package_init sampleCasing emptyEnv H3)))) = 1"
  using Namespace_idempotent[where U = sampleCasing and ?n1.0 = "''Svc-A''" and ?n2.0 = "''svc-a''"
      and ?g1.0 = emptyEnv and ?d1.0 = H3 and ?g2.0 = sampleEnv and ?d2.0 = H2
      and w = "package_init sampleCasing emptyEnv H3" and d = H3
      and cs = "[CallNamespace emptyEnv ''other'', CallSetPrefix emptyEnv ''APP'']"
      and k = "''svc-a''" and g = emptyEnv and pre = "''APP''"]
    Namespace_idempotent[where U = sampleCasing and ?n1.0 = kelvin and ?n2.0 = "''k''"
      and ?g1.0 = emptyEnv and ?d1.0 = H3 and ?g2.0 = emptyEnv and ?d2.0 = H3
      and w = "package_init sampleCasing emptyEnv H3" and d = H3
      and cs = "[CallNamespace emptyEnv ''Svc-A'', CallNamespace sampleEnv ''svc-a'']"
      and k = "''svc-a''" and g = emptyEnv and pre = "''APP''"]
    Namespace_idempotent[where U = sampleCasing and ?n1.0 = "[]" and ?n2.0 = "[]"
      and ?g1.0 = emptyEnv and ?d1.0 = H3 and ?g2.0 = sampleEnv and ?d2.0 = H2
      and w = "package_init sampleCasing emptyEnv H3" and d = H3
      and cs = "[CallNamespace emptyEnv ''x'', CallSetPrefix emptyEnv ''APP'']"
      and k = "''svc-a''" and g = emptyEnv and pre = "''APP''"]
    Namespace_idempotent[where U = sampleCasing and ?n1.0 = "[]" and ?n2.0 = "[]"
      and ?g1.0 = emptyEnv and ?d1.0 = H3 and ?g2.0 = sampleEnv and ?d2.0 = H2
      and w = "package_init sampleCasing emptyEnv H3" and d = H3
      and cs = "[CallSetPrefix emptyEnv ''APP'', CallNamespace emptyEnv []]"
      and k = "''svc-a''" and g = emptyEnv and pre = "''APP''"]
  by (simp add: registry_eval byte_eval H3_def H2_def Level_defs)

end
